theory Spec2Isabelle
  imports Complex_Main "HOL-Library.AList"
begin

section \<open>The grade state machine of course/models.py\<close>

text \<open>
  The development embeds \<^verbatim>\<open>GradeChange.percentage\<close> and the class
  \<^verbatim>\<open>GradeStateMachine\<close> of \<^verbatim>\<open>course/models.py\<close>.

  Modelling decisions:
  \<^item> A \<^verbatim>\<open>DateTimeField\<close> value is an integer timestamp; only its order is used.
  \<^item> A \<^verbatim>\<open>DecimalField\<close> value is a rational number: the arithmetic of
    \<^verbatim>\<open>decimal.Decimal\<close> is taken to be exact (its rounding to 28 significant
    digits is not modelled).
  \<^item> String constants of the source stay strings, so that the final \<^verbatim>\<open>else\<close>
    branches of the source are reachable.
  \<^item> Grade changes are mutable objects. They live in a store, a function from addresses
    to records, and the iterable handed to \<^verbatim>\<open>consume\<close> is a list of addresses.
    The attribute \<^verbatim>\<open>is_superseded\<close> is created by \<^verbatim>\<open>consume\<close>; an object
    that does not have it yet carries \<open>None\<close>.
  \<^item> Every exception of the source is a value of type \<open>error\<close>; a function that may
    raise returns \<open>error + 'a\<close>.
  \<^item> The dictionary \<^verbatim>\<open>attempt_id_to_gchange\<close> is an association list in insertion
    order (assigning to an existing key keeps the position of the key). The attribute is
    deleted by \<^verbatim>\<open>consume\<close>; a deleted attribute is \<open>None\<close>, and reading it raises
    \<^verbatim>\<open>AttributeError\<close>.
  \<^item> Comparisons of \<^verbatim>\<open>None\<close> with a number follow Python 2, the language of the
    source: \<^verbatim>\<open>None\<close> is smaller than every number.
\<close>

subsection \<open>Data\<close>

type_synonym time = int
type_synonym decimal = rat
type_synonym addr = nat

datatype reason = marked_unavailable | marked_exempt | after_due_date | invalid_strategy

datatype error =
    AssertionError
  | ValueError reason
  | RuntimeError string
  | TypeError
  | DivisionByZero
  | InvalidOperation
  | AttributeError

text \<open>class \<^verbatim>\<open>grade_aggregation_strategy\<close>\<close>

definition max_grade :: string where "max_grade = ''max_grade''"
definition avg_grade :: string where "avg_grade = ''avg_grade''"
definition min_grade :: string where "min_grade = ''min_grade''"
definition use_earliest :: string where "use_earliest = ''use_earliest''"
definition use_latest :: string where "use_latest = ''use_latest''"

text \<open>class \<^verbatim>\<open>grade_state_change_types\<close>\<close>

definition grading_started :: string where "grading_started = ''grading_started''"
definition graded :: string where "graded = ''graded''"
definition retrieved :: string where "retrieved = ''retrieved''"
definition unavailable :: string where "unavailable = ''unavailable''"
definition extension :: string where "extension = ''extension''"
definition report_sent :: string where "report_sent = ''report_sent''"
definition do_over :: string where "do_over = ''do_over''"
definition exempt :: string where "exempt = ''exempt''"

text \<open>The fields of \<^verbatim>\<open>GradingOpportunity\<close> that the state machine reads.\<close>

record GradingOpportunity =
  opp_pk :: nat
  opp_aggregation_strategy :: string
  opp_due_time :: "time option"

text \<open>
  The fields of \<^verbatim>\<open>GradeChange\<close> that the state machine reads or writes. Field names
  carry the prefix \<open>gc_\<close> where the state machine has an attribute of the same name.
\<close>

record GradeChange =
  gc_opportunity :: GradingOpportunity
  gc_state :: string
  gc_attempt_id :: "string option"
  gc_points :: "decimal option"
  gc_max_points :: "decimal option"
  gc_due_time :: "time option"
  gc_grade_time :: time
  is_superseded :: "bool option"

type_synonym store = "addr \<Rightarrow> GradeChange"

text \<open>
  The attributes of \<^verbatim>\<open>GradeStateMachine\<close>. \<open>last_grade_change_time\<close> is the
  source's \<^verbatim>\<open>_last_grade_change_time\<close>; \<open>last_grade_time\<close> is the attribute that
  only \<^verbatim>\<open>_clear_grades\<close> assigns.
\<close>

record GradeStateMachine =
  opportunity :: "GradingOpportunity option"
  state :: "string option"
  due_time :: "time option"
  last_graded_time :: "time option"
  last_report_time :: "time option"
  last_grade_change_time :: "time option"
  last_grade_time :: "time option"
  valid_percentages :: "decimal option list"
  attempt_id_to_gchange :: "(string \<times> addr) list option"

subsection \<open>\<^verbatim>\<open>GradeChange.percentage\<close>\<close>

text \<open>
  \<^verbatim>\<open>100*self.points/self.max_points\<close> under the guard
  \<^verbatim>\<open>self.max_points is not None\<close>. The product is evaluated first and raises
  \<^verbatim>\<open>TypeError\<close> when \<^verbatim>\<open>points\<close> is \<^verbatim>\<open>None\<close>; the division by a zero
  decimal raises \<^verbatim>\<open>decimal.InvalidOperation\<close> for \<open>0/0\<close> and
  \<^verbatim>\<open>decimal.DivisionByZero\<close> otherwise.
\<close>

definition gc_percentage :: "GradeChange \<Rightarrow> error + decimal option" where
  "gc_percentage g =
     (case gc_max_points g of
        Some mp \<Rightarrow>
          (case gc_points g of
             None \<Rightarrow> Inl TypeError
           | Some p \<Rightarrow>
               if mp = 0 then (if 100 * p = 0 then Inl InvalidOperation else Inl DivisionByZero)
               else Inr (Some (100 * p / mp)))
      | None \<Rightarrow> Inr None)"

subsection \<open>\<^verbatim>\<open>GradeStateMachine\<close>\<close>

text \<open>\<^verbatim>\<open>_clear_grades\<close>\<close>

definition clear_grades :: "GradeStateMachine \<Rightarrow> GradeStateMachine" where
  "clear_grades m =
     m\<lparr>state := None, last_grade_time := None, valid_percentages := [],
       attempt_id_to_gchange := Some []\<rparr>"

text \<open>\<^verbatim>\<open>__init__\<close>\<close>

definition init :: GradeStateMachine where
  "init =
     \<lparr>opportunity = None, state = None, due_time = None, last_graded_time = None,
      last_report_time = None, last_grade_change_time = None, last_grade_time = None,
      valid_percentages = [], attempt_id_to_gchange = Some []\<rparr>"

text \<open>
  The first two statements of \<^verbatim>\<open>_consume_grade_change\<close>: adopting the opportunity
  of the first grade change (and its due time), or asserting that the primary keys agree.
\<close>

definition adopt_opportunity :: "GradeChange \<Rightarrow> GradeStateMachine \<Rightarrow> error + GradeStateMachine" where
  "adopt_opportunity g m =
     (case opportunity m of
        None \<Rightarrow>
          Inr (m\<lparr>opportunity := Some (gc_opportunity g),
                 due_time := opp_due_time (gc_opportunity g)\<rparr>)
      | Some opp \<Rightarrow>
          if opp_pk opp = opp_pk (gc_opportunity g) then Inr m else Inl AssertionError)"

text \<open>
  The check "that times are increasing". As in the source, the assignment to
  \<^verbatim>\<open>_last_grade_change_time\<close> is inside the guard
  \<^verbatim>\<open>self._last_grade_change_time is not None\<close>.
\<close>

definition check_times :: "GradeChange \<Rightarrow> GradeStateMachine \<Rightarrow> error + GradeStateMachine" where
  "check_times g m =
     (case last_grade_change_time m of
        Some t \<Rightarrow>
          if gc_grade_time g > t then Inr (m\<lparr>last_grade_change_time := Some (gc_grade_time g)\<rparr>)
          else Inl AssertionError
      | None \<Rightarrow> Inr m)"

text \<open>
  The branch of \<^verbatim>\<open>_consume_grade_change\<close> for a grade change whose state is
  \<^verbatim>\<open>graded\<close>; \<open>a\<close> is the address of the grade change \<open>g\<close>.
\<close>

definition consume_graded ::
  "addr \<Rightarrow> GradeChange \<Rightarrow> bool \<Rightarrow> GradeStateMachine \<Rightarrow> store \<Rightarrow> error + GradeStateMachine \<times> store"
where
  "consume_graded a g set_is_superseded m h =
     (if state m = Some unavailable then Inl (ValueError marked_unavailable)
      else if state m = Some exempt then Inl (ValueError marked_exempt)
      else if (case due_time m of None \<Rightarrow> False | Some d \<Rightarrow> gc_grade_time g > d)
        then Inl (ValueError after_due_date)
      else
        (case gc_attempt_id g of
           Some aid \<Rightarrow>
             (case attempt_id_to_gchange m of
                None \<Rightarrow> Inl AttributeError
              | Some d \<Rightarrow>
                  Inr (m\<lparr>state := Some (gc_state g),
                         attempt_id_to_gchange := Some (AList.update aid a d),
                         last_graded_time := Some (gc_grade_time g)\<rparr>,
                       (if set_is_superseded then
                          (case map_of d aid of
                             Some b \<Rightarrow> h(b := (h b)\<lparr>is_superseded := Some True\<rparr>)
                           | None \<Rightarrow> h)
                        else h)))
         | None \<Rightarrow>
             (case gc_percentage g of
                Inl e \<Rightarrow> Inl e
              | Inr p \<Rightarrow>
                  Inr (m\<lparr>state := Some (gc_state g),
                         valid_percentages := valid_percentages m @ [p],
                         last_graded_time := Some (gc_grade_time g)\<rparr>, h))))"

text \<open>The \<^verbatim>\<open>if\<close>/\<^verbatim>\<open>elif\<close> chain of \<^verbatim>\<open>_consume_grade_change\<close>.\<close>

definition dispatch ::
  "addr \<Rightarrow> GradeChange \<Rightarrow> bool \<Rightarrow> GradeStateMachine \<Rightarrow> store \<Rightarrow> error + GradeStateMachine \<times> store"
where
  "dispatch a g set_is_superseded m h =
     (if gc_state g = graded then consume_graded a g set_is_superseded m h
      else if gc_state g = unavailable then Inr ((clear_grades m)\<lparr>state := Some (gc_state g)\<rparr>, h)
      else if gc_state g = do_over then Inr (clear_grades m, h)
      else if gc_state g = exempt then Inr ((clear_grades m)\<lparr>state := Some (gc_state g)\<rparr>, h)
      else if gc_state g = report_sent then Inr (m\<lparr>last_report_time := Some (gc_grade_time g)\<rparr>, h)
      else if gc_state g = extension then Inr (m\<lparr>due_time := gc_due_time g\<rparr>, h)
      else if gc_state g \<in> set [grading_started, retrieved] then Inr (m, h)
      else Inl (RuntimeError (gc_state g)))"

text \<open>\<^verbatim>\<open>_consume_grade_change\<close>, on the grade change at address \<open>a\<close>.\<close>

definition consume_grade_change ::
  "addr \<Rightarrow> bool \<Rightarrow> GradeStateMachine \<times> store \<Rightarrow> error + GradeStateMachine \<times> store"
where
  "consume_grade_change a set_is_superseded ms =
     (case ms of (m, h) \<Rightarrow>
        (case adopt_opportunity (h a) m of
           Inl e \<Rightarrow> Inl e
         | Inr m1 \<Rightarrow>
             (case check_times (h a) m1 of
                Inl e \<Rightarrow> Inl e
              | Inr m2 \<Rightarrow> dispatch a (h a) set_is_superseded m2 h)))"

text \<open>
  The loop of \<^verbatim>\<open>consume\<close>: each grade change gets
  \<^verbatim>\<open>is_superseded = False\<close> and is then consumed.
\<close>

fun consume_loop ::
  "bool \<Rightarrow> addr list \<Rightarrow> GradeStateMachine \<times> store \<Rightarrow> error + GradeStateMachine \<times> store"
where
  "consume_loop set_is_superseded [] ms = Inr ms"
| "consume_loop set_is_superseded (a # as) ms =
     (case consume_grade_change a set_is_superseded
             (fst ms, (snd ms)(a := (snd ms a)\<lparr>is_superseded := Some False\<rparr>)) of
        Inl e \<Rightarrow> Inl e
      | Inr ms' \<Rightarrow> consume_loop set_is_superseded as ms')"

text \<open>
  The generator \<^verbatim>\<open>gchange.percentage() for gchange in ...values()\<close>: the
  percentages of the grade changes at the given addresses, up to the first exception.
\<close>

fun percentages_of :: "store \<Rightarrow> addr list \<Rightarrow> error + decimal option list" where
  "percentages_of h [] = Inr []"
| "percentages_of h (a # as) =
     (case gc_percentage (h a) of
        Inl e \<Rightarrow> Inl e
      | Inr p \<Rightarrow> (case percentages_of h as of Inl e \<Rightarrow> Inl e | Inr ps \<Rightarrow> Inr (p # ps)))"

text \<open>
  The statements of \<^verbatim>\<open>consume\<close> after the loop: the percentages of the values of
  the dictionary are appended, and the dictionary attribute is deleted.
\<close>

definition flush_attempts :: "GradeStateMachine \<times> store \<Rightarrow> error + GradeStateMachine \<times> store" where
  "flush_attempts ms =
     (case attempt_id_to_gchange (fst ms) of
        None \<Rightarrow> Inl AttributeError
      | Some d \<Rightarrow>
          (case percentages_of (snd ms) (map snd d) of
             Inl e \<Rightarrow> Inl e
           | Inr ps \<Rightarrow>
               Inr ((fst ms)\<lparr>valid_percentages := valid_percentages (fst ms) @ ps,
                             attempt_id_to_gchange := None\<rparr>, snd ms)))"

text \<open>\<^verbatim>\<open>consume\<close>\<close>

definition consume ::
  "addr list \<Rightarrow> bool \<Rightarrow> GradeStateMachine \<times> store \<Rightarrow> error + GradeStateMachine \<times> store"
where
  "consume iterable set_is_superseded ms =
     (case consume_loop set_is_superseded iterable ms of
        Inl e \<Rightarrow> Inl e
      | Inr ms' \<Rightarrow> flush_attempts ms')"

text \<open>
  The order that Python 2 gives to \<^verbatim>\<open>None\<close> and numbers, and the builtins
  \<^verbatim>\<open>max\<close> and \<^verbatim>\<open>min\<close> on a non-empty list \<open>x # xs\<close>: the first element is
  the candidate, and a later one replaces it when it is strictly greater (smaller).
\<close>

definition py_less :: "decimal option \<Rightarrow> decimal option \<Rightarrow> bool" where
  "py_less x y =
     (case y of None \<Rightarrow> False | Some b \<Rightarrow> (case x of None \<Rightarrow> True | Some a \<Rightarrow> a < b))"

definition py_max :: "decimal option \<Rightarrow> decimal option list \<Rightarrow> decimal option" where
  "py_max x xs = foldl (\<lambda>best y. if py_less best y then y else best) x xs"

definition py_min :: "decimal option \<Rightarrow> decimal option list \<Rightarrow> decimal option" where
  "py_min x xs = foldl (\<lambda>best y. if py_less y best then y else best) x xs"

text \<open>
  The builtin \<^verbatim>\<open>sum\<close>, which starts from \<open>0\<close> and adds the elements from the left;
  adding \<^verbatim>\<open>None\<close> raises \<^verbatim>\<open>TypeError\<close>.
\<close>

fun py_sum :: "decimal \<Rightarrow> decimal option list \<Rightarrow> error + decimal" where
  "py_sum acc [] = Inr acc"
| "py_sum acc (None # xs) = Inl TypeError"
| "py_sum acc (Some x # xs) = py_sum (acc + x) xs"

text \<open>\<^verbatim>\<open>GradeStateMachine.percentage\<close>\<close>

definition percentage :: "GradeStateMachine \<Rightarrow> error + decimal option" where
  "percentage m =
     (case opportunity m of
        None \<Rightarrow> Inr None
      | Some opp \<Rightarrow>
          (case valid_percentages m of
             [] \<Rightarrow> Inr None
           | p # ps \<Rightarrow>
               if opp_aggregation_strategy opp = max_grade then Inr (py_max p ps)
               else if opp_aggregation_strategy opp = min_grade then Inr (py_min p ps)
               else if opp_aggregation_strategy opp = avg_grade then
                 (case py_sum 0 (p # ps) of
                    Inl e \<Rightarrow> Inl e
                  | Inr s \<Rightarrow> Inr (Some (s / of_nat (length (p # ps)))))
               else if opp_aggregation_strategy opp = use_earliest then Inr p
               else if opp_aggregation_strategy opp = use_latest then Inr (last (p # ps))
               else Inl (ValueError invalid_strategy)))"

text \<open>The conversion \<^verbatim>\<open>%d\<close> of a natural number.\<close>

fun show_nat :: "nat \<Rightarrow> string" where
  "show_nat n =
     (if n < 10 then [char_of (48 + n)]
      else show_nat (n div 10) @ [char_of (48 + n mod 10)])"

declare show_nat.simps [simp del]

text \<open>
  \<^verbatim>\<open>stringify_state\<close>. The conversion \<^verbatim>\<open>"%.1f" % x\<close> goes through a binary
  floating-point number and is not modelled: it is the parameter \<open>format_1f\<close>. Applied
  to \<^verbatim>\<open>None\<close> the conversion raises \<^verbatim>\<open>TypeError\<close>.
\<close>

definition stringify_state :: "(decimal \<Rightarrow> string) \<Rightarrow> GradeStateMachine \<Rightarrow> error + string" where
  "stringify_state format_1f m =
     (case state m of
        None \<Rightarrow> Inr ''-''
      | Some s \<Rightarrow>
          if s = exempt then Inr ''(exempt)''
          else if s = graded then
            (case percentage m of
               Inl e \<Rightarrow> Inl e
             | Inr None \<Rightarrow> Inl TypeError
             | Inr (Some x) \<Rightarrow>
                 Inr (format_1f x @ ''%'' @
                      (if length (valid_percentages m) > 1
                       then '' (/'' @ show_nat (length (valid_percentages m)) @ '')''
                       else [])))
          else Inr ''(other state)'')"

subsection \<open>Callers and observations\<close>

text \<open>
  Two calls of \<^verbatim>\<open>consume\<close> on the same machine, one after the other:
  \<^verbatim>\<open>sm.consume(xs, s); sm.consume(ys, s)\<close>.
\<close>

definition consume_twice ::
  "addr list \<Rightarrow> addr list \<Rightarrow> bool \<Rightarrow> GradeStateMachine \<times> store \<Rightarrow> error + GradeStateMachine \<times> store"
where
  "consume_twice xs ys set_is_superseded ms =
     (case consume xs set_is_superseded ms of
        Inl e \<Rightarrow> Inl e
      | Inr ms' \<Rightarrow> consume ys set_is_superseded ms')"

text \<open>
  What the caller sees after a call: the exception, or the machine together with the
  grade changes at the addresses \<open>as\<close>.
\<close>

definition result_at ::
  "addr list \<Rightarrow> error + GradeStateMachine \<times> store \<Rightarrow> error + GradeStateMachine \<times> GradeChange list"
where
  "result_at as r = (case r of Inl e \<Rightarrow> Inl e | Inr ms \<Rightarrow> Inr (fst ms, map (snd ms) as))"

text \<open>
  The two preconditions that \<^verbatim>\<open>_consume_grade_change\<close> asserts, as predicates of the
  machine and the incoming grade change.
\<close>

definition same_opportunity :: "GradeStateMachine \<Rightarrow> GradeChange \<Rightarrow> bool" where
  "same_opportunity m g =
     (case opportunity m of None \<Rightarrow> True | Some opp \<Rightarrow> opp_pk opp = opp_pk (gc_opportunity g))"

definition times_increase :: "GradeStateMachine \<Rightarrow> GradeChange \<Rightarrow> bool" where
  "times_increase m g =
     (case last_grade_change_time m of None \<Rightarrow> True | Some t \<Rightarrow> t < gc_grade_time g)"


subsection \<open>Sample data\<close>

definition sample_opportunity :: "string \<Rightarrow> time option \<Rightarrow> GradingOpportunity" where
  "sample_opportunity strategy due =
     \<lparr>opp_pk = 1, opp_aggregation_strategy = strategy, opp_due_time = due\<rparr>"

text \<open>
  A grade change of the sample opportunity (strategy \<^verbatim>\<open>avg_grade\<close>, no due time),
  fresh from the database: no due time of its own, no attribute \<^verbatim>\<open>is_superseded\<close>.
\<close>

definition sample_gchange ::
  "string \<Rightarrow> string option \<Rightarrow> decimal option \<Rightarrow> decimal option \<Rightarrow> time \<Rightarrow> GradeChange"
where
  "sample_gchange s aid p mp t =
     \<lparr>gc_opportunity = sample_opportunity avg_grade None, gc_state = s, gc_attempt_id = aid,
      gc_points = p, gc_max_points = mp, gc_due_time = None, gc_grade_time = t,
      is_superseded = None\<rparr>"

text \<open>A machine that has consumed grade changes of the sample opportunity.\<close>

definition sample_machine :: "string \<Rightarrow> string option \<Rightarrow> decimal option list \<Rightarrow> GradeStateMachine" where
  "sample_machine strategy s ps =
     init\<lparr>opportunity := Some (sample_opportunity strategy None), state := s,
          valid_percentages := ps\<rparr>"


text \<open>Two grade changes with the same grade time.\<close>

definition equal_times_store :: store where
  "equal_times_store =
     (\<lambda>_. sample_gchange grading_started None None None 5)
       (1 := sample_gchange retrieved None None None 5)"

text \<open>A grade change that marks the opportunity unavailable.\<close>

definition unavailable_store :: store where
  "unavailable_store = (\<lambda>_. sample_gchange unavailable None None None 5)"

text \<open>A machine in state \<^verbatim>\<open>graded\<close> with one recorded percentage and one open attempt.\<close>

definition graded_machine :: GradeStateMachine where
  "graded_machine =
     (sample_machine avg_grade (Some graded) [Some 40])\<lparr>attempt_id_to_gchange := Some [(''A'', 7)]\<rparr>"




text \<open>Graded grade changes without attempt id, each worth 50 percent, at the times 0, 1, 2, ...\<close>

definition half_store :: store where
  "half_store = (\<lambda>a. sample_gchange graded None (Some 1) (Some 2) (int a))"

subsection \<open>Invariants and further sample data\<close>

text \<open>
  The machine holds a contribution: a recorded percentage, or an entry of the attempt
  dictionary that the final flush will turn into one.
\<close>

definition has_contribution :: "GradeStateMachine \<Rightarrow> bool" where
  "has_contribution m =
     (valid_percentages m \<noteq> [] \<or>
      (case attempt_id_to_gchange m of None \<Rightarrow> False | Some d \<Rightarrow> d \<noteq> []))"

text \<open>The addresses of the grade changes that the attempt dictionary refers to.\<close>

definition attempt_addrs :: "GradeStateMachine \<Rightarrow> addr set" where
  "attempt_addrs m = (case attempt_id_to_gchange m of None \<Rightarrow> {} | Some d \<Rightarrow> snd ` set d)"

text \<open>
  A grade change that carries \<^verbatim>\<open>is_superseded = True\<close> from an earlier reduction,
  and the store after it has been consumed again.
\<close>

definition flagged_store :: store where
  "flagged_store = (\<lambda>_. (sample_gchange grading_started None None None 5)\<lparr>is_superseded := Some True\<rparr>)"

definition flagged_store_done :: store where
  "flagged_store_done =
     flagged_store
       (0 := (sample_gchange grading_started None None None 5)\<lparr>is_superseded := Some False\<rparr>)"

text \<open>
  Two graded grade changes of the attempt \<open>A\<close>, worth 40 and then 90 percent, and the
  store after their reduction with \<^verbatim>\<open>set_is_superseded=True\<close>.
\<close>

definition attempt_store :: store where
  "attempt_store =
     (\<lambda>_. sample_gchange graded (Some ''A'') (Some 40) (Some 100) 5)
       (1 := sample_gchange graded (Some ''A'') (Some 90) (Some 100) 6)"

definition attempt_store_done :: store where
  "attempt_store_done =
     attempt_store
       (0 := (sample_gchange graded (Some ''A'') (Some 40) (Some 100) 5)\<lparr>is_superseded := Some True\<rparr>,
        1 := (sample_gchange graded (Some ''A'') (Some 90) (Some 100) 6)\<lparr>is_superseded := Some False\<rparr>)"

section \<open>Auxiliary facts\<close>

lemmas strategy_defs = max_grade_def avg_grade_def min_grade_def use_earliest_def use_latest_def

lemmas state_defs = grading_started_def graded_def retrieved_def unavailable_def
  extension_def report_sent_def do_over_def exempt_def

lemmas step_defs = consume_grade_change_def adopt_opportunity_def check_times_def dispatch_def
  consume_graded_def clear_grades_def

lemmas sample_defs = sample_opportunity_def sample_gchange_def sample_machine_def

section \<open>C1: the order of grade times\<close>

text \<open>
  C1 states that a reduction fails when a grade time is equal to or earlier than the one
  before it, in particular for the grade times \<open>[T, T]\<close>. The machine starts with
  \<^verbatim>\<open>_last_grade_change_time = None\<close> and assigns the attribute only under the guard
  that it is not \<^verbatim>\<open>None\<close>, so the assertion is never reached: two grade changes
  with the same grade time \<open>5\<close> are consumed without an exception.
\<close>

theorem C1_equal_grade_times_accepted:
  "result_at [0, 1] (consume [0, 1] False (init, equal_times_store)) =
     Inr (init\<lparr>opportunity := Some (sample_opportunity avg_grade None),
               attempt_id_to_gchange := None\<rparr>,
          [(sample_gchange grading_started None None None 5)\<lparr>is_superseded := Some False\<rparr>,
           (sample_gchange retrieved None None None 5)\<lparr>is_superseded := Some False\<rparr>])"
  by (simp add: result_at_def consume_def flush_attempts_def step_defs init_def
      equal_times_store_def sample_defs state_defs)

section \<open>C4: the display string\<close>

text \<open>
  C4 as stated says that \<^verbatim>\<open>stringify_state\<close> returns \<open>"-"\<close> for the state
  \<^verbatim>\<open>unavailable\<close> too. The source returns \<open>"(other state)"\<close> there: after the
  reduction of one \<^verbatim>\<open>unavailable\<close> grade change the machine is in state
  \<^verbatim>\<open>unavailable\<close> and displays \<open>"(other state)"\<close>.
\<close>

theorem C4_counterexample:
  "result_at [] (consume [0] False (init, unavailable_store)) =
     Inr (sample_machine avg_grade (Some unavailable) []\<lparr>attempt_id_to_gchange := None\<rparr>, []) \<and>
   stringify_state (\<lambda>x. ''0.0'')
     (sample_machine avg_grade (Some unavailable) []\<lparr>attempt_id_to_gchange := None\<rparr>) =
     Inr ''(other state)''"
  by (simp add: result_at_def consume_def flush_attempts_def step_defs init_def
      unavailable_store_def sample_defs state_defs stringify_state_def)

text \<open>
  C4, amended: \<^verbatim>\<open>stringify_state\<close> returns \<open>"-"\<close> exactly for the unset state,
  \<open>"(exempt)"\<close> for \<^verbatim>\<open>exempt\<close>, and \<open>"(other state)"\<close> for every state other
  than \<^verbatim>\<open>exempt\<close> and \<^verbatim>\<open>graded\<close>, \<^verbatim>\<open>unavailable\<close> among them. In state
  \<^verbatim>\<open>graded\<close> with aggregated percentage \<open>x\<close> it returns the rendering of \<open>x\<close>
  followed by \<open>%\<close>, and the count \<open>" (/n)"\<close> is appended exactly when
  \<^verbatim>\<open>valid_percentages\<close> has more than one entry.
\<close>

theorem C4_stringify_state:
  "(state m = None \<longrightarrow> stringify_state f m = Inr ''-'') \<and>
   (state m = Some exempt \<longrightarrow> stringify_state f m = Inr ''(exempt)'') \<and>
   (\<forall>s. state m = Some s \<and> s \<noteq> exempt \<and> s \<noteq> graded \<longrightarrow>
      stringify_state f m = Inr ''(other state)'') \<and>
   (\<forall>x. state m = Some graded \<and> percentage m = Inr (Some x) \<longrightarrow>
      stringify_state f m =
        Inr (f x @ ''%'' @
             (if length (valid_percentages m) > 1
              then '' (/'' @ show_nat (length (valid_percentages m)) @ '')'' else [])))"
  by (simp add: stringify_state_def state_defs)

text \<open>The amended C4 at sample machines, one for each branch.\<close>

theorem C4_stringify_state_witness:
  "stringify_state (\<lambda>x. ''75.0'') (sample_machine avg_grade None []) = Inr ''-'' \<and>
   stringify_state (\<lambda>x. ''75.0'') (sample_machine avg_grade (Some exempt) []) = Inr ''(exempt)'' \<and>
   stringify_state (\<lambda>x. ''75.0'') (sample_machine avg_grade (Some unavailable) []) = Inr ''(other state)'' \<and>
   stringify_state (\<lambda>x. ''75.0'') (sample_machine avg_grade (Some graded) [Some 75]) = Inr ''75.0%'' \<and>
   stringify_state (\<lambda>x. ''75.0'') (sample_machine avg_grade (Some graded) [Some 100, Some 50, Some 75]) = Inr ''75.0% (/3)''"
proof -
  let ?f = "\<lambda>x::decimal. ''75.0''"
  have 1: "stringify_state ?f (sample_machine avg_grade None []) = Inr ''-''"
    using C4_stringify_state[of "sample_machine avg_grade None []" ?f]
    by (simp add: sample_defs init_def)
  have 2: "stringify_state ?f (sample_machine avg_grade (Some exempt) []) = Inr ''(exempt)''"
    using C4_stringify_state[of "sample_machine avg_grade (Some exempt) []" ?f]
    by (simp add: sample_defs init_def)
  have 3: "stringify_state ?f (sample_machine avg_grade (Some unavailable) []) = Inr ''(other state)''"
    using C4_stringify_state[of "sample_machine avg_grade (Some unavailable) []" ?f]
    by (simp add: sample_defs init_def state_defs)
  have p1: "percentage (sample_machine avg_grade (Some graded) [Some 75]) = Inr (Some 75)"
    by (simp add: percentage_def sample_defs init_def strategy_defs)
  have 4: "stringify_state ?f (sample_machine avg_grade (Some graded) [Some 75]) = Inr ''75.0%''"
    using p1 C4_stringify_state[of "sample_machine avg_grade (Some graded) [Some 75]" ?f]
    by (simp add: sample_defs init_def)
  have p3: "percentage (sample_machine avg_grade (Some graded) [Some 100, Some 50, Some 75]) = Inr (Some 75)"
    by (simp add: percentage_def sample_defs init_def strategy_defs)
  have n3: "show_nat 3 = ''3''"
    by code_simp
  have s5: "state (sample_machine avg_grade (Some graded) [Some 100, Some 50, Some 75]) = Some graded"
    by (simp add: sample_defs init_def)
  have l5: "length (valid_percentages (sample_machine avg_grade (Some graded) [Some 100, Some 50, Some 75])) = 3"
    by (simp add: sample_defs init_def)
  have 5: "stringify_state ?f (sample_machine avg_grade (Some graded) [Some 100, Some 50, Some 75]) = Inr ''75.0% (/3)''"
    using C4_stringify_state[of "sample_machine avg_grade (Some graded) [Some 100, Some 50, Some 75]" ?f,
        THEN conjunct2, THEN conjunct2, THEN conjunct2, rule_format, OF conjI[OF s5 p3]]
    by (simp add: l5 n3)
  from 1 2 3 4 5 show ?thesis by blast
qed


section \<open>C7: the aggregated percentage\<close>






section \<open>C9: resets\<close>

text \<open>
  C9: whatever the machine has accumulated, a grade change in state
  \<^verbatim>\<open>unavailable\<close> or \<^verbatim>\<open>exempt\<close> that passes the two assertions empties
  \<^verbatim>\<open>valid_percentages\<close> and the attempt dictionary and sets the state to
  \<^verbatim>\<open>unavailable\<close> or \<^verbatim>\<open>exempt\<close>; a \<^verbatim>\<open>do_over\<close> empties them too and
  leaves the state unset (\<^verbatim>\<open>_clear_grades\<close> assigns \<^verbatim>\<open>None\<close> to it). No grade
  change object is written.
\<close>

theorem C9_resets:
  assumes "same_opportunity m (h a)" and "times_increase m (h a)"
  shows
    "(gc_state (h a) = unavailable \<longrightarrow>
        (\<exists>m'. consume_grade_change a s (m, h) = Inr (m', h) \<and> valid_percentages m' = [] \<and>
              attempt_id_to_gchange m' = Some [] \<and> state m' = Some unavailable)) \<and>
     (gc_state (h a) = exempt \<longrightarrow>
        (\<exists>m'. consume_grade_change a s (m, h) = Inr (m', h) \<and> valid_percentages m' = [] \<and>
              attempt_id_to_gchange m' = Some [] \<and> state m' = Some exempt)) \<and>
     (gc_state (h a) = do_over \<longrightarrow>
        (\<exists>m'. consume_grade_change a s (m, h) = Inr (m', h) \<and> valid_percentages m' = [] \<and>
              attempt_id_to_gchange m' = Some [] \<and> state m' = None))"
  using assms
  by (auto simp add: step_defs same_opportunity_def times_increase_def state_defs
      split: option.splits)

text \<open>C9 at a machine in state \<^verbatim>\<open>graded\<close> that holds a percentage and an open attempt.\<close>

theorem C9_resets_witness:
  "(\<exists>m'. consume_grade_change 0 False (graded_machine, \<lambda>_. sample_gchange unavailable None None None 5) =
           Inr (m', \<lambda>_. sample_gchange unavailable None None None 5) \<and>
         valid_percentages m' = [] \<and> attempt_id_to_gchange m' = Some [] \<and> state m' = Some unavailable) \<and>
   (\<exists>m'. consume_grade_change 0 False (graded_machine, \<lambda>_. sample_gchange exempt None None None 5) =
           Inr (m', \<lambda>_. sample_gchange exempt None None None 5) \<and>
         valid_percentages m' = [] \<and> attempt_id_to_gchange m' = Some [] \<and> state m' = Some exempt) \<and>
   (\<exists>m'. consume_grade_change 0 False (graded_machine, \<lambda>_. sample_gchange do_over None None None 5) =
           Inr (m', \<lambda>_. sample_gchange do_over None None None 5) \<and>
         valid_percentages m' = [] \<and> attempt_id_to_gchange m' = Some [] \<and> state m' = None)"
proof -
  have so: "same_opportunity graded_machine (sample_gchange s None None None 5)" for s
    by (simp add: same_opportunity_def graded_machine_def sample_defs init_def)
  have ti: "times_increase graded_machine (sample_gchange s None None None 5)" for s
    by (simp add: times_increase_def graded_machine_def sample_defs init_def)
  have st: "gc_state (sample_gchange s None None None 5) = s" for s
    by (simp add: sample_defs)
  note r = C9_resets[of graded_machine "\<lambda>_. sample_gchange s None None None 5" 0 False for s,
      simplified st, OF so ti]
  from r[of unavailable] r[of exempt] r[of do_over] show ?thesis
    by blast
qed

section \<open>C8: the due time\<close>




section \<open>C2: the percentage of a grade change\<close>

lemma percentages_of_Inr:
  "percentages_of h as = Inr ps \<Longrightarrow>
     length ps = length as \<and> (\<forall>i<length as. gc_percentage (h (as ! i)) = Inr (ps ! i))"
proof (induction as arbitrary: ps)
  case Nil
  then show ?case by simp
next
  case (Cons a as)
  then obtain p qs where p: "gc_percentage (h a) = Inr p" and qs: "percentages_of h as = Inr qs"
    and ps: "ps = p # qs"
    by (auto split: sum.splits)
  from Cons.IH[OF qs] p ps show ?case
    by (auto simp add: nth_Cons split: nat.splits)
qed




section \<open>C5: continuing a reduction\<close>

text \<open>
  C5 as stated says that reducing \<open>[e1, e2]\<close> and continuing the same machine with
  \<open>e3\<close> gives the state of one reduction of \<open>[e1, e2, e3]\<close>. \<^verbatim>\<open>consume\<close>
  deletes the attribute \<^verbatim>\<open>attempt_id_to_gchange\<close> before it returns, so the second
  call on the same machine raises \<^verbatim>\<open>AttributeError\<close> for three graded grade
  changes, while the single reduction succeeds.
\<close>

theorem C5_counterexample:
  "consume_twice [0, 1] [2] False (init, half_store) = Inl AttributeError \<and>
   result_at [] (consume [0, 1, 2] False (init, half_store)) =
     Inr ((sample_machine avg_grade (Some graded) [Some 50, Some 50, Some 50])
            \<lparr>last_graded_time := Some 2, attempt_id_to_gchange := None\<rparr>, [])"
  by (simp add: consume_twice_def result_at_def consume_def flush_attempts_def step_defs init_def
      half_store_def sample_defs state_defs gc_percentage_def)

lemma consume_loop_append:
  "consume_loop s (xs @ ys) ms =
     (case consume_loop s xs ms of Inl e \<Rightarrow> Inl e | Inr ms' \<Rightarrow> consume_loop s ys ms')"
  by (induction xs arbitrary: ms) (simp_all split: sum.splits)

text \<open>
  C5, amended: the reduction of \<open>xs @ ys\<close> is the loop of \<^verbatim>\<open>consume\<close> over \<open>xs\<close>
  continued, on the carried machine and store and before the attempt dictionary is
  flushed and deleted, by the reduction of \<open>ys\<close>. An exception in the loop over \<open>xs\<close>
  is the exception of the whole reduction.
\<close>

theorem C5_continue_before_flush:
  "consume (xs @ ys) s ms =
     (case consume_loop s xs ms of Inl e \<Rightarrow> Inl e | Inr ms' \<Rightarrow> consume ys s ms')"
  by (simp add: consume_def consume_loop_append split: sum.splits)


text \<open>The amended C5 at three graded grade changes, split as \<open>[e1, e2]\<close> and \<open>[e3]\<close>.\<close>

theorem C5_continue_before_flush_witness:
  "result_at []
     (case consume_loop False [0, 1] (init, half_store) of
        Inl e \<Rightarrow> Inl e
      | Inr ms' \<Rightarrow> consume [2] False ms') =
     Inr ((sample_machine avg_grade (Some graded) [Some 50, Some 50, Some 50])
            \<lparr>last_graded_time := Some 2, attempt_id_to_gchange := None\<rparr>, [])"
proof -
  have "result_at [] (consume ([0, 1] @ [2]) False (init, half_store)) =
     Inr ((sample_machine avg_grade (Some graded) [Some 50, Some 50, Some 50])
            \<lparr>last_graded_time := Some 2, attempt_id_to_gchange := None\<rparr>, [])"
    by (simp add: result_at_def consume_def flush_attempts_def step_defs init_def
        half_store_def sample_defs state_defs gc_percentage_def)
  then show ?thesis
    by (simp only: C5_continue_before_flush[of "[0, 1]" "[2]" False "(init, half_store)"])
qed

section \<open>Facts about the dictionary and the sample reductions\<close>

lemma update_not_Nil: "AList.update k v d \<noteq> []"
  by (cases d) simp_all

lemma update_sndD: "(k', b) \<in> set (AList.update k v d) \<Longrightarrow> b = v \<or> b \<in> snd ` set d"
  by (induction d) (auto split: if_splits intro: rev_image_eqI)

lemma consume_attempt_store:
  "consume [0, 1] True (init, attempt_store) =
     Inr ((sample_machine avg_grade (Some graded) [Some 90])
            \<lparr>last_graded_time := Some 6, attempt_id_to_gchange := None\<rparr>,
          attempt_store_done)"
  by (simp add: consume_def flush_attempts_def step_defs init_def attempt_store_def
      attempt_store_done_def sample_defs state_defs gc_percentage_def fun_upd_twist)

lemma consume_flagged_store:
  "consume [0] False (init, flagged_store) =
     Inr (init\<lparr>opportunity := Some (sample_opportunity avg_grade None),
               attempt_id_to_gchange := None\<rparr>,
          flagged_store_done)"
  by (simp add: consume_def flush_attempts_def step_defs init_def flagged_store_def
      flagged_store_done_def sample_defs state_defs)

lemma adopt_check_fields:
  assumes "adopt_opportunity g m = Inr m1" and "check_times g m1 = Inr m2"
  shows "state m2 = state m \<and> valid_percentages m2 = valid_percentages m \<and>
         attempt_id_to_gchange m2 = attempt_id_to_gchange m"
  using assms
  by (auto simp add: adopt_opportunity_def check_times_def split: option.splits if_splits)

lemma step_dispatch:
  assumes "consume_grade_change a s (m, h) = Inr (m', h')"
  obtains m2 where "dispatch a (h a) s m2 h = Inr (m', h')"
    and "state m2 = state m" and "valid_percentages m2 = valid_percentages m"
    and "attempt_id_to_gchange m2 = attempt_id_to_gchange m"
proof -
  from assms obtain m1 m2 where 1: "adopt_opportunity (h a) m = Inr m1"
    and 2: "check_times (h a) m1 = Inr m2" and 3: "dispatch a (h a) s m2 h = Inr (m', h')"
    by (auto simp add: consume_grade_change_def split: sum.splits)
  from adopt_check_fields[OF 1 2] 3 that show thesis by blast
qed

section \<open>C10: a graded machine has a percentage\<close>

lemma graded_contribution:
  assumes "consume_graded a g s m h = Inr (m', h')"
  shows "has_contribution m'"
  using assms
  by (auto simp add: consume_graded_def has_contribution_def update_not_Nil
      split: option.splits sum.splits if_splits)

lemma other_contribution:
  assumes "dispatch a g s m h = Inr (m', h')" and "gc_state g \<noteq> graded"
    and "state m = Some graded \<longrightarrow> has_contribution m"
  shows "state m' = Some graded \<longrightarrow> has_contribution m'"
proof -
  consider "gc_state g = unavailable" | "gc_state g = do_over" | "gc_state g = exempt"
    | "gc_state g \<notin> {unavailable, do_over, exempt}" by blast
  then show ?thesis
  proof cases
    case 1
    with assms(1,2) have "state m' = Some unavailable"
      by (auto simp add: dispatch_def)
    then show ?thesis by (simp add: state_defs)
  next
    case 2
    with assms(1,2) have "state m' = None"
      by (auto simp add: dispatch_def clear_grades_def state_defs)
    then show ?thesis by simp
  next
    case 3
    with assms(1,2) have "state m' = Some exempt"
      by (auto simp add: dispatch_def state_defs)
    then show ?thesis by (simp add: state_defs)
  next
    case 4
    with assms(1,2) have "state m' = state m \<and> has_contribution m' = has_contribution m"
      by (auto simp add: dispatch_def has_contribution_def split: if_splits)
    with assms(3) show ?thesis by simp
  qed
qed

lemma step_contribution:
  assumes "consume_grade_change a s (m, h) = Inr (m', h')"
    and "state m = Some graded \<longrightarrow> has_contribution m"
  shows "state m' = Some graded \<longrightarrow> has_contribution m'"
proof -
  from assms(1) obtain m2 where d: "dispatch a (h a) s m2 h = Inr (m', h')"
    and f: "state m2 = state m" "valid_percentages m2 = valid_percentages m"
      "attempt_id_to_gchange m2 = attempt_id_to_gchange m"
    by (rule step_dispatch)
  from f assms(2) have inv: "state m2 = Some graded \<longrightarrow> has_contribution m2"
    by (simp add: has_contribution_def)
  show ?thesis
  proof (cases "gc_state (h a) = graded")
    case True
    with d have "consume_graded a (h a) s m2 h = Inr (m', h')"
      by (simp add: dispatch_def)
    then show ?thesis by (simp add: graded_contribution)
  next
    case False
    from other_contribution[OF d False inv] show ?thesis .
  qed
qed

lemma loop_contribution:
  "consume_loop s as ms = Inr ms' \<Longrightarrow> (state (fst ms) = Some graded \<longrightarrow> has_contribution (fst ms)) \<Longrightarrow>
     state (fst ms') = Some graded \<longrightarrow> has_contribution (fst ms')"
proof (induction as arbitrary: ms)
  case Nil
  then show ?case by simp
next
  case (Cons a as)
  let ?h = "(snd ms)(a := (snd ms a)\<lparr>is_superseded := Some False\<rparr>)"
  from Cons.prems(1) obtain ms1 where
    st: "consume_grade_change a s (fst ms, ?h) = Inr ms1" and
    lp: "consume_loop s as ms1 = Inr ms'"
    by (auto split: sum.splits)
  from st Cons.prems(2) have "state (fst ms1) = Some graded \<longrightarrow> has_contribution (fst ms1)"
    using step_contribution[of a s "fst ms" ?h "fst ms1" "snd ms1"] by simp
  with Cons.IH[OF lp] show ?case by simp
qed

lemma flush_contribution:
  assumes "flush_attempts (m, h) = Inr (m', h')"
  shows "state m' = state m \<and> (has_contribution m \<longrightarrow> valid_percentages m' \<noteq> [])"
proof -
  from assms obtain d ps where d: "attempt_id_to_gchange m = Some d"
    and ps: "percentages_of h (map snd d) = Inr ps"
    and m': "m' = m\<lparr>valid_percentages := valid_percentages m @ ps, attempt_id_to_gchange := None\<rparr>"
    by (auto simp add: flush_attempts_def split: option.splits sum.splits)
  from percentages_of_Inr[OF ps] have "length ps = length d" by simp
  with d m' show ?thesis
    by (auto simp add: has_contribution_def)
qed

text \<open>
  C10: when a reduction from a fresh machine completes in state \<^verbatim>\<open>graded\<close>,
  \<^verbatim>\<open>valid_percentages\<close> is not empty. Every step keeps the invariant that a machine
  in state \<^verbatim>\<open>graded\<close> holds a contribution, and the final flush turns every
  dictionary entry into an entry of \<^verbatim>\<open>valid_percentages\<close>.
\<close>

theorem C10_graded_has_percentage:
  assumes "consume as s (init, h) = Inr (m', h')" and "state m' = Some graded"
  shows "valid_percentages m' \<noteq> []"
proof -
  from assms(1) obtain m1 h1 where lp: "consume_loop s as (init, h) = Inr (m1, h1)"
    and fl: "flush_attempts (m1, h1) = Inr (m', h')"
    by (auto simp add: consume_def split: sum.splits)
  have "state init = Some graded \<longrightarrow> has_contribution init"
    by (simp add: init_def)
  with loop_contribution[OF lp] have "state m1 = Some graded \<longrightarrow> has_contribution m1"
    by simp
  with flush_contribution[OF fl] assms(2) show ?thesis by simp
qed

text \<open>C10 at the reduction of the two grade changes of attempt \<open>A\<close>.\<close>

theorem C10_graded_has_percentage_witness:
  "valid_percentages ((sample_machine avg_grade (Some graded) [Some 90])
      \<lparr>last_graded_time := Some 6, attempt_id_to_gchange := None\<rparr>) \<noteq> []"
proof -
  have s: "state ((sample_machine avg_grade (Some graded) [Some 90])
            \<lparr>last_graded_time := Some 6, attempt_id_to_gchange := None\<rparr>) = Some graded"
    by (simp add: sample_defs init_def)
  from C10_graded_has_percentage[OF consume_attempt_store s] show ?thesis .
qed

section \<open>C3: what a reduction writes to its input\<close>

lemma graded_store:
  assumes "consume_graded a g s m h = Inr (m', h')"
  shows "h' = h \<or> (s \<and> (\<exists>b \<in> attempt_addrs m. h' = h(b := (h b)\<lparr>is_superseded := Some True\<rparr>)))"
proof (cases "gc_attempt_id g")
  case None
  with assms show ?thesis
    by (auto simp add: consume_graded_def split: if_splits sum.splits)
next
  case (Some aid)
  with assms obtain d where d: "attempt_id_to_gchange m = Some d"
    and h': "h' = (if s then (case map_of d aid of
                               Some b \<Rightarrow> h(b := (h b)\<lparr>is_superseded := Some True\<rparr>)
                             | None \<Rightarrow> h)
                  else h)"
    by (auto simp add: consume_graded_def split: if_splits option.splits)
  show ?thesis
  proof (cases "s \<and> map_of d aid \<noteq> None")
    case False
    with h' show ?thesis by auto
  next
    case True
    then obtain b where b: "map_of d aid = Some b" by auto
    then have "b \<in> attempt_addrs m"
      using d by (auto simp add: attempt_addrs_def dest!: map_of_SomeD intro: rev_image_eqI)
    with True b h' show ?thesis by auto
  qed
qed

lemma step_store:
  assumes "consume_grade_change a s (m, h) = Inr (m', h')"
  shows "h' = h \<or> (s \<and> (\<exists>b \<in> attempt_addrs m. h' = h(b := (h b)\<lparr>is_superseded := Some True\<rparr>)))"
proof -
  from assms obtain m2 where d: "dispatch a (h a) s m2 h = Inr (m', h')"
    and "attempt_id_to_gchange m2 = attempt_id_to_gchange m"
    by (rule step_dispatch)
  then have a: "attempt_addrs m2 = attempt_addrs m"
    by (simp add: attempt_addrs_def)
  show ?thesis
  proof (cases "gc_state (h a) = graded")
    case True
    with d have "consume_graded a (h a) s m2 h = Inr (m', h')"
      by (simp add: dispatch_def)
    from graded_store[OF this] a show ?thesis by simp
  next
    case False
    with d have "h' = h"
      by (auto simp add: dispatch_def split: if_splits)
    then show ?thesis by simp
  qed
qed

lemma step_addrs:
  assumes "consume_grade_change a s (m, h) = Inr (m', h')"
  shows "attempt_addrs m' \<subseteq> insert a (attempt_addrs m)"
proof -
  from assms obtain m2 where d: "dispatch a (h a) s m2 h = Inr (m', h')"
    and "attempt_id_to_gchange m2 = attempt_id_to_gchange m"
    by (rule step_dispatch)
  then have a: "attempt_addrs m2 = attempt_addrs m"
    by (simp add: attempt_addrs_def)
  show ?thesis
  proof (cases "gc_state (h a) = graded")
    case True
    with d have "consume_graded a (h a) s m2 h = Inr (m', h')"
      by (simp add: dispatch_def)
    then have "attempt_addrs m' \<subseteq> insert a (attempt_addrs m2)"
      by (auto simp add: consume_graded_def attempt_addrs_def
          split: option.splits sum.splits if_splits dest: update_sndD)
    with a show ?thesis by simp
  next
    case False
    with d have "attempt_addrs m' \<subseteq> attempt_addrs m2"
      by (auto simp add: dispatch_def clear_grades_def attempt_addrs_def split: if_splits)
    with a show ?thesis by auto
  qed
qed

lemma loop_fields:
  "consume_loop s as (m, h) = Inr (m', h') \<Longrightarrow>
     (h' b)\<lparr>is_superseded := x\<rparr> = (h b)\<lparr>is_superseded := x\<rparr>"
proof (induction as arbitrary: m h)
  case Nil
  then show ?case by simp
next
  case (Cons a as)
  let ?h = "h(a := (h a)\<lparr>is_superseded := Some False\<rparr>)"
  from Cons.prems obtain m1 h1 where
    st: "consume_grade_change a s (m, ?h) = Inr (m1, h1)" and
    lp: "consume_loop s as (m1, h1) = Inr (m', h')"
    by (auto split: sum.splits)
  from step_store[OF st] have "(h1 b)\<lparr>is_superseded := x\<rparr> = (h b)\<lparr>is_superseded := x\<rparr>"
    by auto
  with Cons.IH[OF lp] show ?case by simp
qed

lemma loop_frame:
  "consume_loop s as (m, h) = Inr (m', h') \<Longrightarrow> attempt_addrs m \<subseteq> A \<Longrightarrow>
     attempt_addrs m' \<subseteq> set as \<union> A \<and> (\<forall>b. b \<notin> set as \<union> A \<longrightarrow> h' b = h b)"
proof (induction as arbitrary: m h A)
  case Nil
  then show ?case by simp
next
  case (Cons a as)
  let ?h = "h(a := (h a)\<lparr>is_superseded := Some False\<rparr>)"
  from Cons.prems(1) obtain m1 h1 where
    st: "consume_grade_change a s (m, ?h) = Inr (m1, h1)" and
    lp: "consume_loop s as (m1, h1) = Inr (m', h')"
    by (auto split: sum.splits)
  from step_addrs[OF st] Cons.prems(2) have a1: "attempt_addrs m1 \<subseteq> insert a A"
    by auto
  from step_store[OF st] Cons.prems(2) have h1: "\<forall>b. b \<notin> insert a A \<longrightarrow> h1 b = h b"
    by auto
  from Cons.IH[OF lp a1] h1 show ?case by auto
qed

lemma loop_flag_set:
  "consume_loop s as (m, h) = Inr (m', h') \<Longrightarrow>
     b \<in> set as \<or> is_superseded (h b) \<noteq> None \<Longrightarrow> is_superseded (h' b) \<noteq> None"
proof (induction as arbitrary: m h)
  case Nil
  then show ?case by simp
next
  case (Cons a as)
  let ?h = "h(a := (h a)\<lparr>is_superseded := Some False\<rparr>)"
  from Cons.prems(1) obtain m1 h1 where
    st: "consume_grade_change a s (m, ?h) = Inr (m1, h1)" and
    lp: "consume_loop s as (m1, h1) = Inr (m', h')"
    by (auto split: sum.splits)
  from Cons.prems(2) have "b \<in> set as \<or> is_superseded (?h b) \<noteq> None"
    by auto
  with step_store[OF st] have "b \<in> set as \<or> is_superseded (h1 b) \<noteq> None"
    by (auto split: if_splits)
  with Cons.IH[OF lp] show ?case by simp
qed

lemma loop_flag_False:
  "consume_loop False as (m, h) = Inr (m', h') \<Longrightarrow>
     b \<in> set as \<or> is_superseded (h b) = Some False \<Longrightarrow> is_superseded (h' b) = Some False"
proof (induction as arbitrary: m h)
  case Nil
  then show ?case by simp
next
  case (Cons a as)
  let ?h = "h(a := (h a)\<lparr>is_superseded := Some False\<rparr>)"
  from Cons.prems(1) obtain m1 h1 where
    st: "consume_grade_change a False (m, ?h) = Inr (m1, h1)" and
    lp: "consume_loop False as (m1, h1) = Inr (m', h')"
    by (auto split: sum.splits)
  from Cons.prems(2) have "b \<in> set as \<or> is_superseded (?h b) = Some False"
    by auto
  with step_store[OF st] have "b \<in> set as \<or> is_superseded (h1 b) = Some False"
    by (auto split: if_splits)
  with Cons.IH[OF lp] show ?case by simp
qed

lemma flush_store: "flush_attempts (m, h) = Inr (m', h') \<Longrightarrow> h' = h"
  by (auto simp add: flush_attempts_def split: option.splits sum.splits)

text \<open>
  C3 as stated says that no field of a grade change, the supersession flag included, is
  changed by \<^verbatim>\<open>consume\<close>. The loop of \<^verbatim>\<open>consume\<close> assigns
  \<^verbatim>\<open>is_superseded = False\<close> to every grade change: one that carried
  \<^verbatim>\<open>is_superseded = True\<close> before the call carries \<^verbatim>\<open>False\<close> after it.
\<close>

theorem C3_counterexample:
  "result_at [0] (consume [0] False (init, flagged_store)) =
     Inr (init\<lparr>opportunity := Some (sample_opportunity avg_grade None),
               attempt_id_to_gchange := None\<rparr>,
          [(sample_gchange grading_started None None None 5)\<lparr>is_superseded := Some False\<rparr>]) \<and>
   map flagged_store [0] =
     [(sample_gchange grading_started None None None 5)\<lparr>is_superseded := Some True\<rparr>]"
  by (simp add: result_at_def consume_def flush_attempts_def step_defs init_def
      flagged_store_def sample_defs state_defs)

text \<open>
  C3, amended: a completed reduction from a fresh machine changes no field of any grade
  change other than \<^verbatim>\<open>is_superseded\<close>, and leaves grade changes outside the
  iterable untouched. Every grade change of the iterable has the attribute
  \<^verbatim>\<open>is_superseded\<close> afterwards, and without \<^verbatim>\<open>set_is_superseded\<close> its value
  is \<^verbatim>\<open>False\<close>.
\<close>

theorem C3_only_is_superseded_written:
  assumes "consume as s (init, h) = Inr (m', h')"
  shows "(\<forall>a. (h' a)\<lparr>is_superseded := None\<rparr> = (h a)\<lparr>is_superseded := None\<rparr>) \<and>
         (\<forall>a. a \<notin> set as \<longrightarrow> h' a = h a) \<and>
         (\<forall>a \<in> set as. is_superseded (h' a) \<noteq> None) \<and>
         (\<not> s \<longrightarrow> (\<forall>a \<in> set as. is_superseded (h' a) = Some False))"
proof -
  from assms obtain m1 h1 where lp: "consume_loop s as (init, h) = Inr (m1, h1)"
    and fl: "flush_attempts (m1, h1) = Inr (m', h')"
    by (auto simp add: consume_def split: sum.splits)
  from flush_store[OF fl] have h': "h' = h1" .
  have "attempt_addrs init \<subseteq> {}"
    by (simp add: attempt_addrs_def init_def)
  from loop_frame[OF lp this] have fr: "\<forall>a. a \<notin> set as \<longrightarrow> h1 a = h a"
    by simp
  have fl: "\<forall>a \<in> set as. is_superseded (h1 a) \<noteq> None"
    using loop_flag_set[OF lp] by blast
  have ff: "\<not> s \<longrightarrow> (\<forall>a \<in> set as. is_superseded (h1 a) = Some False)"
    using loop_flag_False[of as init h m1 h1] lp by auto
  from loop_fields[OF lp] fr fl ff show ?thesis
    unfolding h' by blast
qed


text \<open>
  The amended C3 at the two grade changes of attempt \<open>A\<close> (with
  \<^verbatim>\<open>set_is_superseded\<close>) and at the flagged grade change (without).
\<close>

theorem C3_only_is_superseded_written_witness:
  "(attempt_store_done 0)\<lparr>is_superseded := None\<rparr> = (attempt_store 0)\<lparr>is_superseded := None\<rparr> \<and>
   attempt_store_done 2 = attempt_store 2 \<and>
   is_superseded (attempt_store_done 1) \<noteq> None \<and>
   is_superseded (flagged_store_done 0) = Some False"
proof -
  note a = C3_only_is_superseded_written[OF consume_attempt_store]
  note f = C3_only_is_superseded_written[OF consume_flagged_store]
  from a have 1: "(attempt_store_done 0)\<lparr>is_superseded := None\<rparr> =
      (attempt_store 0)\<lparr>is_superseded := None\<rparr>"
    by blast
  from a have "2 \<notin> set [0, 1::nat] \<longrightarrow> attempt_store_done 2 = attempt_store 2"
    by blast
  then have 2: "attempt_store_done 2 = attempt_store 2"
    by simp
  have "1 \<in> set [0, 1::nat]" by simp
  with a have 3: "is_superseded (attempt_store_done 1) \<noteq> None"
    by blast
  have "0 \<in> set [0::nat]" by simp
  with f have 4: "is_superseded (flagged_store_done 0) = Some False"
    by blast
  from 1 2 3 4 show ?thesis by blast
qed

end
